theory Spec2Isabelle
  imports Main "HOL-Library.Word" "HOL-Library.Multiset"
begin

section \<open>The forwarding proxy: data model\<close>

text \<open>
  A shallow embedding of \<^verbatim>\<open>health.go\<close> and \<^verbatim>\<open>lookup.go\<close> of package
  \<^verbatim>\<open>forward\<close>. Go's \<^verbatim>\<open>uint32\<close> and \<^verbatim>\<open>uint16\<close> are words, so that
  \<^verbatim>\<open>atomic.AddUint32\<close> wraps as it does in Go and comparisons are unsigned.
\<close>

type_synonym u32 = "32 word"
type_synonym u16 = "16 word"

text \<open>
  Go errors are compared by identity (\<^verbatim>\<open>err == dns.ErrTruncated\<close>), so the sentinel
  errors are constructors of their own; every other error is \<open>OtherError\<close> with its text.
\<close>

datatype error =
    ErrTruncated
  | errNoHealthy
  | errInvalidDomain
  | OtherError string

subsection \<open>Messages of the codec\<close>

text \<open>
  \<^verbatim>\<open>dns.Msg\<close> is an opaque value of the external codec. The fields kept are those the two
  source files read or write: the header's id, recursion-desired bit and response code,
  the question section, and the OPT pseudo-record of the protocol extension (payload size
  and DO flag), absent when the message carries none.
\<close>

record question =
  qname :: string
  qtype :: u16
  qclass :: u16

record opt =
  UDPSize :: u16
  Do :: bool

record msg =
  MsgId :: u16
  RecursionDesired :: bool
  Rcode :: int
  Question :: "question list"
  Edns0 :: "opt option"

definition TypeNS :: u16 where
  "TypeNS = 2"

definition ClassINET :: u16 where
  "ClassINET = 1"

definition RcodeServerFailure :: int where
  "RcodeServerFailure = 2"

definition new_Msg :: msg where
  \<comment> \<open>\<^verbatim>\<open>new(dns.Msg)\<close>: the zero value.\<close>
  "new_Msg = \<lparr>MsgId = 0, RecursionDesired = False, Rcode = 0, Question = [], Edns0 = None\<rparr>"

definition SetQuestion :: "u16 \<Rightarrow> msg \<Rightarrow> string \<Rightarrow> u16 \<Rightarrow> msg" where
  \<comment> \<open>Modelled from the spec: \<^verbatim>\<open>dns.Msg.SetQuestion\<close> is the codec's (not in this
      repository); it makes the message a query with one question of the given name and
      type, class IN, recursion desired, and a fresh id (the first argument).\<close>
  "SetQuestion fresh m z t =
     m\<lparr>MsgId := fresh, RecursionDesired := True,
       Question := [\<lparr>qname = z, qtype = t, qclass = ClassINET\<rparr>]\<rparr>"

subsection \<open>Upstream hosts\<close>

text \<open>
  The fields of \<^verbatim>\<open>host\<close> that \<^verbatim>\<open>health.go\<close> uses: the address, the failure counter,
  the probe-in-flight flag, and whether a TLS configuration is present
  (\<^verbatim>\<open>tlsConfig != nil\<close>; its server name stands for the configuration).
\<close>

record host =
  addr :: string
  fails :: u32
  "checking" :: bool
  tlsConfig :: "string option"

text \<open>\<^verbatim>\<open>down\<close> (lines 55 to 62); \<^verbatim>\<open>>\<close> on \<^verbatim>\<open>uint32\<close> is unsigned.\<close>

definition down :: "host \<Rightarrow> u32 \<Rightarrow> bool" where
  "down h maxfails = (if maxfails = 0 then False else fails h > maxfails)"

text \<open>
  What the program does to the outside, in the order it does it. The text of a log line is
  kept as its format arguments; the observed duration of \<^verbatim>\<open>RequestDuration\<close> and the
  deadlines' times are not kept.
\<close>

record conn =
  conn_id :: nat
  conn_UDPSize :: u16

datatype event =
    EvExchange msg string
  | EvLogHealthcheckFailed string error
  | EvHealthcheckFailureCount string
  | EvDial nat string
  | EvLogFailedConnect string string error
  | EvSetWriteDeadline conn
  | EvConnWriteMsg conn msg
  | EvLogFailedWrite string string error
  | EvSetReadDeadline conn
  | EvConnReadMsg conn
  | EvLogFailedRead string string error
  | EvConnClose conn
  | EvClientWriteMsg nat msg
  | EvYield nat conn
  | EvRequestCount string
  | EvRcodeCount string string
  | EvRequestDuration string
  | EvLogForwardFailed string error

subsection \<open>The store, the orchestrator and its surroundings\<close>

text \<open>
  A \<^verbatim>\<open>*proxy\<close> is an address in a store of upstreams; \<^verbatim>\<open>nil\<close> is address 0, which the
  store never holds. The store keeps, for each proxy, its \<^verbatim>\<open>host\<close> (the proxy's other
  fields, its transport and pool, are outside these files). Dereferencing \<^verbatim>\<open>nil\<close> and
  indexing a slice out of range panic.
\<close>

type_synonym ptr = nat

datatype panic = NilDereference | IndexOutOfRange

record world =
  heap :: "ptr \<Rightarrow> host option"
  trace :: "event list"

definition deref :: "world \<Rightarrow> ptr \<Rightarrow> host option" where
  "deref s p = (if p = 0 then None else heap s p)"

definition emit :: "event list \<Rightarrow> world \<Rightarrow> world" where
  "emit evs s = s\<lparr>trace := trace s @ evs\<rparr>"

text \<open>
  \<^verbatim>\<open>request.Request\<close> pairs the response writer of the client (an identifier here) with
  the request message.
\<close>

record request =
  W :: nat
  Req :: msg

type_synonym handler = "nat \<Rightarrow> msg \<Rightarrow> world \<Rightarrow> panic + ((int \<times> error option) \<times> world)"

text \<open>
  The fields of \<^verbatim>\<open>Forward\<close> that the two files read. \<^verbatim>\<open>Next\<close> is \<open>None\<close> when no
  next handler is configured.
\<close>

record Forward =
  proxies :: "ptr list"
  "from" :: string
  ignored :: "string list"
  maxfails :: u32
  forceTCP :: bool
  Next :: "handler option"

text \<open>
  What the orchestrator calls outside these two files is a parameter:
  \<^item> \<open>rand_Int\<close> is the value of \<^verbatim>\<open>rand.Int()\<close> (never negative) and \<open>rand_Perm n\<close> the
    slice \<^verbatim>\<open>rand.Perm(n)\<close>, for this request;
  \<^item> \<open>Matches zone name\<close> is \<^verbatim>\<open>plugin.Name(zone).Matches(name)\<close>;
  \<^item> \<open>req_Name\<close>, \<open>req_Proto\<close> and \<open>req_Size\<close> are \<^verbatim>\<open>state.Name()\<close>,
    \<^verbatim>\<open>state.Proto()\<close> and \<^verbatim>\<open>state.Size()\<close>;
  \<^item> \<open>proxy_Dial\<close>, \<open>conn_WriteMsg\<close> and \<open>conn_ReadMsg\<close> are the outcomes of
    \<^verbatim>\<open>proxy.Dial(proto)\<close>, \<^verbatim>\<open>conn.WriteMsg(m)\<close> and \<^verbatim>\<open>conn.ReadMsg()\<close>;
  \<^item> \<open>RcodeToString\<close> is the codec's table and \<open>Itoa\<close> is \<^verbatim>\<open>strconv.Itoa\<close>.
\<close>

record env =
  fresh_id :: u16
  client_Exchange :: "msg \<Rightarrow> string \<Rightarrow> error option"
  rand_Int :: nat
  rand_Perm :: "nat \<Rightarrow> nat list"
  Matches :: "string \<Rightarrow> string \<Rightarrow> bool"
  req_Name :: "request \<Rightarrow> string"
  req_Proto :: "request \<Rightarrow> string"
  req_Size :: "request \<Rightarrow> int"
  proxy_Dial :: "ptr \<Rightarrow> string \<Rightarrow> error + conn"
  conn_WriteMsg :: "conn \<Rightarrow> msg \<Rightarrow> error option"
  conn_ReadMsg :: "conn \<Rightarrow> error + msg"
  RcodeToString :: "int \<Rightarrow> string option"
  Itoa :: "int \<Rightarrow> string"

section \<open>Health checking (\<^verbatim>\<open>health.go\<close>, lines 13 to 62)\<close>

text \<open>
  \<^verbatim>\<open>h.client.Exchange\<close> is the codec's client: its outcome \<open>client_Exchange\<close> is a
  function of the probe message and the address, of which \<^verbatim>\<open>send\<close> keeps the error only.
  The id that \<^verbatim>\<open>SetQuestion\<close> draws is \<open>fresh_id\<close>.
\<close>

definition hcping :: "env \<Rightarrow> msg" where
  "hcping env = (SetQuestion (fresh_id env) new_Msg ''.'' TypeNS)\<lparr>RecursionDesired := False\<rparr>"

definition send :: "env \<Rightarrow> host \<Rightarrow> event list \<Rightarrow> error option \<times> event list" where
  "send env h tr =
     (let err = client_Exchange env (hcping env) (addr h);
          tr = tr @ [EvExchange (hcping env) (addr h)];
          err = (if err = Some ErrTruncated then None else err)
      in (err, tr))"

text \<open>
  \<^verbatim>\<open>Check\<close> has three parts, separated by the lock: the test-and-set of the flag (lines 14
  to 22), the probe with the update of the counter (lines 24 to 33), and the release of the
  flag (lines 35 to 37). \<open>Check_enter\<close> is \<open>None\<close> when \<^verbatim>\<open>Check\<close> returns at line 18.
\<close>

definition Check_enter :: "host \<Rightarrow> host option" where
  "Check_enter h = (if checking h then None else Some (h\<lparr>checking := True\<rparr>))"

definition Check_probe :: "env \<Rightarrow> host \<Rightarrow> event list \<Rightarrow> host \<times> event list" where
  "Check_probe env h tr =
     (case send env h tr of
        (Some err, tr') \<Rightarrow>
          (h\<lparr>fails := fails h + 1\<rparr>,
           tr' @ [EvLogHealthcheckFailed (addr h) err, EvHealthcheckFailureCount (addr h)])
      | (None, tr') \<Rightarrow> (h\<lparr>fails := 0\<rparr>, tr'))"

definition Check_exit :: "host \<Rightarrow> host" where
  "Check_exit h = h\<lparr>checking := False\<rparr>"

definition Check :: "env \<Rightarrow> host \<Rightarrow> event list \<Rightarrow> host \<times> event list" where
  "Check env h tr =
     (case Check_enter h of
        None \<Rightarrow> (h, tr)
      | Some h1 \<Rightarrow> (case Check_probe env h1 tr of (h2, tr') \<Rightarrow> (Check_exit h2, tr')))"

section \<open>The orchestrator (\<^verbatim>\<open>health.go\<close>, lines 84 to 227)\<close>

definition Name_fn :: "Forward \<Rightarrow> string" where
  \<comment> \<open>\<^verbatim>\<open>func (f Forward) Name() string\<close>\<close>
  "Name_fn f = ''forward''"

fun isAllowedDomain_loop :: "env \<Rightarrow> string \<Rightarrow> string list \<Rightarrow> bool" where
  "isAllowedDomain_loop env name [] = True"
| "isAllowedDomain_loop env name (ignore # rest) =
     (if Matches env ignore name then False else isAllowedDomain_loop env name rest)"

definition isAllowedDomain :: "env \<Rightarrow> Forward \<Rightarrow> string \<Rightarrow> bool" where
  "isAllowedDomain env f name =
     (if name = from f then True else isAllowedDomain_loop env name (ignored f))"

definition match :: "env \<Rightarrow> Forward \<Rightarrow> request \<Rightarrow> bool" where
  "match env f state =
     (if \<not> Matches env (from f) (req_Name env state)
         \<or> \<not> isAllowedDomain env f (req_Name env state)
      then False else True)"

text \<open>
  \<^verbatim>\<open>list\<close>: the loop of lines 218 to 220 writes \<^verbatim>\<open>f.proxies[p]\<close> into slot \<open>i\<close> of
  \<^verbatim>\<open>rnd\<close>, which \<^verbatim>\<open>make\<close> filled with \<^verbatim>\<open>nil\<close>.
\<close>

fun list_loop :: "ptr list \<Rightarrow> nat \<Rightarrow> nat list \<Rightarrow> ptr list \<Rightarrow> panic + ptr list" where
  "list_loop ps i [] rnd = Inr rnd"
| "list_loop ps i (p # perms) rnd =
     (if p < length ps \<and> i < length rnd
      then list_loop ps (Suc i) perms (rnd[i := ps ! p])
      else Inl IndexOutOfRange)"

definition list :: "env \<Rightarrow> Forward \<Rightarrow> panic + ptr list" where
  "list env f =
     (if length (proxies f) = 1 then Inr (proxies f)
      else if length (proxies f) = 2 then
        (if rand_Int env mod 2 = 0 then Inr [proxies f ! 1, proxies f ! 0]
         else Inr (proxies f))
      else
        (let perms = rand_Perm env (length (proxies f));
             rnd = replicate (length (proxies f)) 0
         in list_loop (proxies f) 0 perms rnd))"

definition NextOrFailure :: "string \<Rightarrow> handler option \<Rightarrow> handler" where
  \<comment> \<open>Modelled from the spec: \<^verbatim>\<open>plugin.NextOrFailure\<close> is the surrounding dispatch
      system's (not in this repository); the next handler is invoked with the original
      inputs and its result returned verbatim. Without a next handler the call fails
      with a server failure.\<close>
  "NextOrFailure name next w r s =
     (case next of
        Some h \<Rightarrow> h w r s
      | None \<Rightarrow> Inr ((RcodeServerFailure, Some (OtherError (name @ '': no next plugin found''))), s))"

definition Down :: "host \<Rightarrow> u32 \<Rightarrow> bool" where
  \<comment> \<open>Modelled from the spec: \<^verbatim>\<open>proxy.Down(maxfails)\<close> is not in the two files; a trial
      consults the health of the upstream, that is \<^verbatim>\<open>down\<close> of the proxy's host.\<close>
  "Down h n = down h n"

definition choose_proto :: "env \<Rightarrow> Forward \<Rightarrow> request \<Rightarrow> host \<Rightarrow> string" where
  \<comment> \<open>lines 124 to 130\<close>
  "choose_proto env f state h =
     (let proto = req_Proto env state;
          proto = (if forceTCP f then ''tcp'' else proto);
          proto = (if tlsConfig h \<noteq> None then ''tcp-tls'' else proto)
      in proto)"

definition set_UDPSize :: "env \<Rightarrow> request \<Rightarrow> conn \<Rightarrow> conn" where
  \<comment> \<open>lines 139 to 142; \<^verbatim>\<open>uint16(state.Size())\<close> keeps the low 16 bits\<close>
  "set_UDPSize env state c =
     (let c = c\<lparr>conn_UDPSize := word_of_int (req_Size env state)\<rparr>
      in if conn_UDPSize c < 512 then c\<lparr>conn_UDPSize := 512\<rparr> else c)"

definition rcode_label :: "env \<Rightarrow> msg \<Rightarrow> string" where
  \<comment> \<open>lines 163 to 166\<close>
  "rcode_label env ret =
     (case RcodeToString env (Rcode ret) of Some rc \<Rightarrow> rc | None \<Rightarrow> Itoa env (Rcode ret))"

text \<open>
  The loop of \<^verbatim>\<open>ServeDNS\<close> (lines 117 to 175) over the proxies that \<^verbatim>\<open>list\<close> returned.
  The context argument of \<^verbatim>\<open>ServeDNS\<close> is only handed to the next handler and is left
  out.
\<close>

fun ServeDNS_loop ::
  "env \<Rightarrow> Forward \<Rightarrow> request \<Rightarrow> ptr list \<Rightarrow> world \<Rightarrow> panic + ((int \<times> error option) \<times> world)"
where
  "ServeDNS_loop env f state [] s = Inr ((RcodeServerFailure, Some errNoHealthy), s)"
| "ServeDNS_loop env f state (proxy # rest) s =
     (case deref s proxy of
        None \<Rightarrow> Inl NilDereference
      | Some h \<Rightarrow>
          if Down h (maxfails f) then ServeDNS_loop env f state rest s
          else
            let proto = choose_proto env f state h;
                s = emit [EvDial proxy proto] s
            in (case proxy_Dial env proxy proto of
                  Inl err \<Rightarrow>
                    ServeDNS_loop env f state rest
                      (emit [EvLogFailedConnect proto (addr h) err] s)
                | Inr c \<Rightarrow>
                    let c = set_UDPSize env state c;
                        s = emit [EvSetWriteDeadline c, EvConnWriteMsg c (Req state)] s
                    in (case conn_WriteMsg env c (Req state) of
                          Some err \<Rightarrow>
                            ServeDNS_loop env f state rest
                              (emit [EvLogFailedWrite proto (addr h) err, EvConnClose c] s)
                        | None \<Rightarrow>
                            let s = emit [EvSetReadDeadline c, EvConnReadMsg c] s
                            in (case conn_ReadMsg env c of
                                  Inl err \<Rightarrow>
                                    ServeDNS_loop env f state rest
                                      (emit [EvLogFailedRead proto (addr h) err, EvConnClose c] s)
                                | Inr ret \<Rightarrow>
                                    Inr ((0, None),
                                         emit [EvClientWriteMsg (W state) ret, EvYield proxy c,
                                               EvRequestCount (addr h),
                                               EvRcodeCount (rcode_label env ret) (addr h),
                                               EvRequestDuration (addr h)] s)))))"

definition ServeDNS :: "env \<Rightarrow> Forward \<Rightarrow> handler" where
  "ServeDNS env f w r s =
     (let state = \<lparr>W = w, Req = r\<rparr>
      in if \<not> match env f state then NextOrFailure (Name_fn f) (Next f) w r s
         else case list env f of
                Inl p \<Rightarrow> Inl p
              | Inr ps \<Rightarrow> ServeDNS_loop env f state ps s)"

section \<open>Forwarding built messages (\<^verbatim>\<open>lookup.go\<close>)\<close>

definition connect ::
  "env \<Rightarrow> request \<Rightarrow> bool \<Rightarrow> bool \<Rightarrow> ptr \<Rightarrow> host \<Rightarrow> world \<Rightarrow> (error + msg) \<times> world"
where
  \<comment> \<open>Modelled from the spec: \<^verbatim>\<open>proxy.connect(state, forceTCP, metric)\<close> is not in the two
      files. It is one trial of section 4.3, step 3, on an already-built message: the
      transport kind is chosen (forced TCP overrides the client's transport, transport
      security upgrades it), a connection is acquired, the payload size is set to the
      client's (at least 512), the query is written and the reply read; a connection that
      failed is discarded, a connection that served is released and the metrics are
      recorded. The reply or the error goes back to the caller.\<close>
  "connect env state force metric proxy h s =
     (let proto = req_Proto env state;
          proto = (if force then ''tcp'' else proto);
          proto = (if tlsConfig h \<noteq> None then ''tcp-tls'' else proto);
          s = emit [EvDial proxy proto] s
      in (case proxy_Dial env proxy proto of
            Inl err \<Rightarrow> (Inl err, s)
          | Inr c \<Rightarrow>
              let c = set_UDPSize env state c;
                  s = emit [EvSetWriteDeadline c, EvConnWriteMsg c (Req state)] s
              in (case conn_WriteMsg env c (Req state) of
                    Some err \<Rightarrow> (Inl err, emit [EvConnClose c] s)
                  | None \<Rightarrow>
                      let s = emit [EvSetReadDeadline c, EvConnReadMsg c] s
                      in (case conn_ReadMsg env c of
                            Inl err \<Rightarrow> (Inl err, emit [EvConnClose c] s)
                          | Inr ret \<Rightarrow>
                              (Inr ret,
                               emit ([EvYield proxy c] @
                                     (if metric
                                      then [EvRequestCount (addr h),
                                            EvRcodeCount (rcode_label env ret) (addr h),
                                            EvRequestDuration (addr h)]
                                      else [])) s)))))"

text \<open>The loop of \<^verbatim>\<open>Forward\<close> (lines 17 to 30); \<open>(None, Some err)\<close> is \<^verbatim>\<open>nil, err\<close>.\<close>

fun Forward_loop ::
  "env \<Rightarrow> Forward \<Rightarrow> request \<Rightarrow> ptr list \<Rightarrow> world
   \<Rightarrow> panic + ((msg option \<times> error option) \<times> world)"
where
  "Forward_loop env f state [] s = Inr ((None, Some errNoHealthy), s)"
| "Forward_loop env f state (proxy # rest) s =
     (case deref s proxy of
        None \<Rightarrow> Inl NilDereference
      | Some h \<Rightarrow>
          if Down h (maxfails f) then Forward_loop env f state rest s
          else
            (case connect env state (forceTCP f) True proxy h s of
               (Inl err, s') \<Rightarrow>
                 Forward_loop env f state rest (emit [EvLogForwardFailed (addr h) err] s')
             | (Inr ret, s') \<Rightarrow> Inr ((Some ret, None), s')))"

definition Forward ::
  "env \<Rightarrow> Forward \<Rightarrow> request \<Rightarrow> world \<Rightarrow> panic + ((msg option \<times> error option) \<times> world)"
where
  "Forward env f state s =
     (case list env f of
        Inl p \<Rightarrow> Inl p
      | Inr ps \<Rightarrow> Forward_loop env f state ps s)"

definition SizeAndDo :: "request \<Rightarrow> msg \<Rightarrow> msg" where
  \<comment> \<open>Modelled from the spec: \<^verbatim>\<open>request.Request.SizeAndDo\<close> is the surrounding system's
      (not in this repository); it copies the protocol-extension settings, payload size
      and security flag, of the original request onto the message. A request without the
      extension has none to copy.\<close>
  "SizeAndDo state m =
     (case Edns0 (Req state) of
        None \<Rightarrow> m
      | Some o1 \<Rightarrow> m\<lparr>Edns0 := Some \<lparr>UDPSize = UDPSize o1, Do = Do o1\<rparr>\<rparr>)"

definition Lookup ::
  "env \<Rightarrow> Forward \<Rightarrow> request \<Rightarrow> string \<Rightarrow> u16 \<Rightarrow> world
   \<Rightarrow> panic + ((msg option \<times> error option) \<times> world)"
where
  "Lookup env f state name typ s =
     (let req = new_Msg;
          req = SetQuestion (fresh_id env) req name typ;
          req = SizeAndDo state req;
          state2 = \<lparr>W = W state, Req = req\<rparr>
      in Forward env f state2 s)"

section \<open>Notions used in the statements\<close>

text \<open>
  A trial is skipped when the upstream is down, and fails when the dial, the write or the
  read returns an error.
\<close>

definition trial_skipped_or_failed :: "env \<Rightarrow> Forward \<Rightarrow> request \<Rightarrow> world \<Rightarrow> ptr \<Rightarrow> bool" where
  "trial_skipped_or_failed env f state s p =
     (case deref s p of
        None \<Rightarrow> False
      | Some h \<Rightarrow>
          Down h (maxfails f)
          \<or> (case proxy_Dial env p (choose_proto env f state h) of
                Inl err \<Rightarrow> True
              | Inr c \<Rightarrow>
                  conn_WriteMsg env (set_UDPSize env state c) (Req state) \<noteq> None
                  \<or> isl (conn_ReadMsg env (set_UDPSize env state c))))"

text \<open>The messages that a trace wrote to clients, in order.\<close>

fun client_writes :: "event list \<Rightarrow> (nat \<times> msg) list" where
  "client_writes [] = []"
| "client_writes (EvClientWriteMsg w m # evs) = (w, m) # client_writes evs"
| "client_writes (ev # evs) = client_writes evs"

text \<open>The upstreams that a trace dialled and the connections that it yielded, in order.\<close>

fun dialled :: "event list \<Rightarrow> ptr list" where
  "dialled [] = []"
| "dialled (EvDial p proto # evs) = p # dialled evs"
| "dialled (ev # evs) = dialled evs"

fun yielded :: "event list \<Rightarrow> conn list" where
  "yielded [] = []"
| "yielded (EvYield p c # evs) = c # yielded evs"
| "yielded (ev # evs) = yielded evs"

subsection \<open>A configuration to run the definitions on\<close>

text \<open>
  Five upstreams: the dial to the first fails, the write to the second, the read from the
  third; the fourth answers with a server-failure code; the fifth has failed three probes.
  The zone is \<open>org.\<close> without \<open>a.org.\<close>, and \<open>maxfails\<close> is 2.
\<close>

definition example_host :: "string \<Rightarrow> u32 \<Rightarrow> host" where
  "example_host a n = \<lparr>addr = a, fails = n, checking = False, tlsConfig = None\<rparr>"

definition example_heap :: "ptr \<Rightarrow> host option" where
  "example_heap p =
     (if p = 11 then Some (example_host ''10.0.0.1:53'' 0)
      else if p = 12 then Some (example_host ''10.0.0.2:53'' 0)
      else if p = 13 then Some (example_host ''10.0.0.3:53'' 0)
      else if p = 14 then Some (example_host ''10.0.0.4:53'' 0)
      else if p = 15 then Some (example_host ''10.0.0.5:53'' 3)
      else None)"

definition example_world :: world where
  "example_world = \<lparr>heap = example_heap, trace = []\<rparr>"

definition example_query :: "string \<Rightarrow> msg" where
  "example_query name =
     \<lparr>MsgId = 11, RecursionDesired = True, Rcode = 0,
      Question = [\<lparr>qname = name, qtype = 1, qclass = ClassINET\<rparr>],
      Edns0 = Some \<lparr>UDPSize = 4096, Do = True\<rparr>\<rparr>"

definition example_reply :: msg where
  "example_reply =
     \<lparr>MsgId = 11, RecursionDesired = True, Rcode = RcodeServerFailure,
      Question = [], Edns0 = None\<rparr>"

definition example_env :: env where
  "example_env =
     \<lparr>fresh_id = 7,
      client_Exchange = (\<lambda>m a. if a = ''10.0.0.1:53'' then Some (OtherError ''i/o timeout'')
                               else if a = ''10.0.0.2:53'' then Some ErrTruncated
                               else None),
      rand_Int = 0,
      rand_Perm = (\<lambda>n. rev [0..<n]),
      Matches = (\<lambda>zone name. name = zone
                   \<or> drop (length name - Suc (length zone)) name = CHR ''.'' # zone),
      req_Name = (\<lambda>state. case Question (Req state) of [] \<Rightarrow> ''.'' | q # qs \<Rightarrow> qname q),
      req_Proto = (\<lambda>state. ''udp''),
      req_Size = (\<lambda>state. case Edns0 (Req state) of None \<Rightarrow> 512 | Some o1 \<Rightarrow> uint (UDPSize o1)),
      proxy_Dial = (\<lambda>p proto. if p = 11 then Inl (OtherError ''connection refused'')
                               else Inr \<lparr>conn_id = p, conn_UDPSize = 0\<rparr>),
      conn_WriteMsg = (\<lambda>c m. if conn_id c = 12 then Some (OtherError ''broken pipe'') else None),
      conn_ReadMsg = (\<lambda>c. if conn_id c = 13 then Inl (OtherError ''i/o timeout'')
                            else Inr example_reply),
      RcodeToString = (\<lambda>rc. if rc = 0 then Some ''NOERROR''
                             else if rc = 2 then Some ''SERVFAIL'' else None),
      Itoa = (\<lambda>i. ''65535'')\<rparr>"

definition example_next :: handler where
  "example_next w r s = Inr ((0, None), emit [EvClientWriteMsg w r] s)"

definition example_forward :: "ptr list \<Rightarrow> Forward" where
  "example_forward ps =
     \<lparr>proxies = ps, from = ''org.'', ignored = [''a.org.''], maxfails = 2, forceTCP = False,
      Next = Some example_next\<rparr>"

section \<open>Auxiliary facts\<close>

lemma deref_emit: "deref (emit evs s) p = deref s p"
  by (simp add: deref_def emit_def)

lemma heap_emit: "heap (emit evs s) = heap s"
  by (simp add: emit_def)

lemma trace_emit: "trace (emit evs s) = trace s @ evs"
  by (simp add: emit_def)

lemma emit_emit: "emit evs' (emit evs s) = emit (evs @ evs') s"
  by (simp add: emit_def)

lemma client_writes_append: "client_writes (xs @ ys) = client_writes xs @ client_writes ys"
  by (induction xs rule: client_writes.induct) simp_all

lemma trial_skipped_or_failed_emit:
  "trial_skipped_or_failed env f state (emit evs s) p = trial_skipped_or_failed env f state s p"
  by (simp add: trial_skipped_or_failed_def deref_emit)

lemma Check_probe_checking: "checking (fst (Check_probe env h tr)) = checking h"
  by (simp add: Check_probe_def send_def Let_def split: option.splits prod.splits)

subsection \<open>The loop of \<^verbatim>\<open>list\<close>\<close>

lemma list_loop_fills:
  "i + length perms \<le> length rnd \<Longrightarrow> \<forall>p \<in> set perms. p < length ps \<Longrightarrow>
   list_loop ps i perms rnd =
     Inr (take i rnd @ map (\<lambda>p. ps ! p) perms @ drop (i + length perms) rnd)"
proof (induction perms arbitrary: i rnd)
  case Nil
  then show ?case by simp
next
  case (Cons p perms)
  have i: "i < length rnd" using Cons.prems(1) by simp
  have p: "p < length ps" using Cons.prems(2) by simp
  have "list_loop ps i (p # perms) rnd = list_loop ps (Suc i) perms (rnd[i := ps ! p])"
    using i p by simp
  also have "\<dots> = Inr (take (Suc i) (rnd[i := ps ! p]) @ map (\<lambda>p. ps ! p) perms
                        @ drop (Suc i + length perms) (rnd[i := ps ! p]))"
    using Cons.prems by (intro Cons.IH) auto
  also have "take (Suc i) (rnd[i := ps ! p]) = take i rnd @ [ps ! p]"
    using i by (simp add: take_Suc_conv_app_nth)
  also have "drop (Suc i + length perms) (rnd[i := ps ! p]) = drop (i + length (p # perms)) rnd"
    by simp
  finally show ?case by simp
qed

lemma list_loop_perm:
  assumes "mset perms = mset [0..<length ps]"
  shows "list_loop ps 0 perms (replicate (length ps) 0) = Inr (map (\<lambda>p. ps ! p) perms)"
proof -
  have len: "length perms = length ps"
    using assms by (metis length_upt mset_eq_length minus_nat.diff_0)
  have "set perms = {0..<length ps}"
    using assms by (metis mset_eq_setD set_upt)
  then have "\<forall>p \<in> set perms. p < length ps" by simp
  then show ?thesis
    using list_loop_fills [of 0 perms "replicate (length ps) 0" ps] len by simp
qed

lemma mset_map_nth_perm:
  assumes "mset perms = mset [0..<length ps]"
  shows "mset (map (\<lambda>p. ps ! p) perms) = mset ps"
proof -
  have "mset (map (\<lambda>p. ps ! p) perms) = image_mset (\<lambda>p. ps ! p) (mset perms)" by simp
  also have "\<dots> = mset (map (\<lambda>p. ps ! p) [0..<length ps])" using assms by simp
  also have "\<dots> = mset ps" by (simp add: map_nth)
  finally show ?thesis .
qed

lemma list_mset:
  assumes "mset (rand_Perm env (length (proxies f))) = mset [0..<length (proxies f)]"
  shows "\<exists>qs. list env f = Inr qs \<and> mset qs = mset (proxies f)"
proof -
  consider "length (proxies f) = 1" | "length (proxies f) = 2"
    | "length (proxies f) \<noteq> 1 \<and> length (proxies f) \<noteq> 2"
    by blast
  then show ?thesis
  proof cases
    case 1
    then show ?thesis by (simp add: list_def)
  next
    case 2
    then obtain a b where "proxies f = [a, b]"
      by (metis (no_types, opaque_lifting) One_nat_def Suc_1 length_0_conv length_Suc_conv)
    then show ?thesis by (simp add: list_def)
  next
    case 3
    then show ?thesis
      using list_loop_perm [OF assms] mset_map_nth_perm [OF assms]
      by (simp add: list_def Let_def)
  qed
qed

subsection \<open>The zone match\<close>

lemma isAllowedDomain_loop_iff:
  "isAllowedDomain_loop env name igs = (\<forall>ignore \<in> set igs. \<not> Matches env ignore name)"
  by (induction igs) auto

subsection \<open>The trial loops\<close>

lemma ServeDNS_loop_heap:
  "ServeDNS_loop env f state ps s = Inr (res, s') \<Longrightarrow> heap s' = heap s"
proof (induction ps arbitrary: s)
  case Nil
  then show ?case by simp
next
  case (Cons p ps)
  show ?case
  proof (cases "deref s p")
    case None
    with Cons.prems show ?thesis by simp
  next
    case (Some h)
    with Cons.prems Cons.IH show ?thesis
      by (auto simp add: Let_def heap_emit split: if_splits sum.splits option.splits
               dest!: Cons.IH)
  qed
qed

lemma ServeDNS_loop_exhausted:
  "\<forall>p \<in> set ps. trial_skipped_or_failed env f state s p \<Longrightarrow>
   \<exists>s'. ServeDNS_loop env f state ps s = Inr ((RcodeServerFailure, Some errNoHealthy), s')
        \<and> client_writes (trace s') = client_writes (trace s)"
proof (induction ps arbitrary: s)
  case Nil
  then show ?case by simp
next
  case (Cons p ps)
  have rest: "\<exists>s'. ServeDNS_loop env f state ps (emit evs s)
                 = Inr ((RcodeServerFailure, Some errNoHealthy), s')
               \<and> client_writes (trace s') = client_writes (trace (emit evs s))" for evs
    using Cons.prems by (intro Cons.IH) (simp add: trial_skipped_or_failed_emit)
  have rest0: "\<exists>s'. ServeDNS_loop env f state ps s
                 = Inr ((RcodeServerFailure, Some errNoHealthy), s')
               \<and> client_writes (trace s') = client_writes (trace s)"
    using Cons.prems by (intro Cons.IH) simp
  from Cons.prems have p: "trial_skipped_or_failed env f state s p" by simp
  then obtain h where h: "deref s p = Some h"
    by (auto simp add: trial_skipped_or_failed_def split: option.splits)
  show ?case
  proof (cases "Down h (maxfails f)")
    case True
    then show ?thesis using h rest0 by simp
  next
    case False
    show ?thesis
    proof (cases "proxy_Dial env p (choose_proto env f state h)")
      case (Inl err)
      then show ?thesis
        using h False rest [of "[EvDial p (choose_proto env f state h),
            EvLogFailedConnect (choose_proto env f state h) (addr h) err]"]
        by (simp add: Let_def emit_emit trace_emit client_writes_append)
    next
      case (Inr c)
      show ?thesis
      proof (cases "conn_WriteMsg env (set_UDPSize env state c) (Req state)")
        case (Some err)
        then show ?thesis
          using h False Inr rest [of "[EvDial p (choose_proto env f state h),
            EvSetWriteDeadline (set_UDPSize env state c),
            EvConnWriteMsg (set_UDPSize env state c) (Req state),
            EvLogFailedWrite (choose_proto env f state h) (addr h) err,
            EvConnClose (set_UDPSize env state c)]"]
          by (simp add: Let_def emit_emit trace_emit client_writes_append)
      next
        case None
        with p h False Inr obtain err where
          rd: "conn_ReadMsg env (set_UDPSize env state c) = Inl err"
          by (auto simp add: trial_skipped_or_failed_def isl_def)
        then show ?thesis
          using h False Inr None rest [of "[EvDial p (choose_proto env f state h),
            EvSetWriteDeadline (set_UDPSize env state c),
            EvConnWriteMsg (set_UDPSize env state c) (Req state),
            EvSetReadDeadline (set_UDPSize env state c),
            EvConnReadMsg (set_UDPSize env state c),
            EvLogFailedRead (choose_proto env f state h) (addr h) err,
            EvConnClose (set_UDPSize env state c)]"]
          by (simp add: Let_def emit_emit trace_emit client_writes_append)
      qed
    qed
  qed
qed

lemma yielded_append: "yielded (xs @ ys) = yielded xs @ yielded ys"
  by (induction xs rule: yielded.induct) simp_all

lemma dialled_append: "dialled (xs @ ys) = dialled xs @ dialled ys"
  by (induction xs rule: dialled.induct) simp_all

lemma ServeDNS_loop_trace:
  "ServeDNS_loop env f state ps s = Inr (res, s') \<Longrightarrow>
   \<exists>evs. trace s' = trace s @ evs
         \<and> (\<forall>q. count_list (dialled evs) q \<le> count_list ps q)
         \<and> (\<forall>c \<in> set (yielded evs).
               conn_WriteMsg env c (Req state) = None \<and> \<not> isl (conn_ReadMsg env c))"
proof (induction ps arbitrary: s)
  case Nil
  then show ?case by simp
next
  case (Cons p ps)
  have step: "\<exists>evs. trace s' = trace s @ evs
                \<and> (\<forall>q. count_list (dialled evs) q \<le> count_list (p # ps) q)
                \<and> (\<forall>c \<in> set (yielded evs).
                      conn_WriteMsg env c (Req state) = None \<and> \<not> isl (conn_ReadMsg env c))"
    if run: "ServeDNS_loop env f state ps (emit E s) = Inr (res, s')"
      and E: "\<forall>q. count_list (dialled E) q \<le> (if q = p then 1 else 0)"
      and Y: "yielded E = []" for E
  proof -
    from Cons.IH [OF run] obtain evs where
      t: "trace s' = trace (emit E s) @ evs"
      and c: "\<forall>q. count_list (dialled evs) q \<le> count_list ps q"
      and y: "\<forall>c \<in> set (yielded evs).
                conn_WriteMsg env c (Req state) = None \<and> \<not> isl (conn_ReadMsg env c)"
      by blast
    have "trace s' = trace s @ (E @ evs)" using t by (simp add: trace_emit)
    moreover have "\<forall>c \<in> set (yielded (E @ evs)).
                conn_WriteMsg env c (Req state) = None \<and> \<not> isl (conn_ReadMsg env c)"
      using y Y by (simp add: yielded_append)
    moreover have "\<forall>q. count_list (dialled (E @ evs)) q \<le> count_list (p # ps) q"
    proof
      fix q
      have "count_list (dialled E) q \<le> (if q = p then 1 else 0)" using E by blast
      moreover have "count_list (dialled evs) q \<le> count_list ps q" using c by blast
      ultimately show "count_list (dialled (E @ evs)) q \<le> count_list (p # ps) q"
        by (simp add: dialled_append split: if_splits)
    qed
    ultimately show ?thesis by blast
  qed
  have step0: "\<exists>evs. trace s' = trace s @ evs
                \<and> (\<forall>q. count_list (dialled evs) q \<le> count_list (p # ps) q)
                \<and> (\<forall>c \<in> set (yielded evs).
                      conn_WriteMsg env c (Req state) = None \<and> \<not> isl (conn_ReadMsg env c))"
    if run: "ServeDNS_loop env f state ps s = Inr (res, s')"
  proof -
    from Cons.IH [OF run] obtain evs where
      t: "trace s' = trace s @ evs"
      and c: "\<forall>q. count_list (dialled evs) q \<le> count_list ps q"
      and y: "\<forall>c \<in> set (yielded evs).
                conn_WriteMsg env c (Req state) = None \<and> \<not> isl (conn_ReadMsg env c)"
      by blast
    have "\<forall>q. count_list (dialled evs) q \<le> count_list (p # ps) q"
      using c by (auto intro: le_trans)
    with t y show ?thesis by blast
  qed
  show ?case
  proof (cases "deref s p")
    case None
    with Cons.prems show ?thesis by simp
  next
    case (Some h)
    show ?thesis
    proof (cases "Down h (maxfails f)")
      case True
      with Cons.prems Some show ?thesis by (intro step0) simp
    next
      case False
      let ?proto = "choose_proto env f state h"
      show ?thesis
      proof (cases "proxy_Dial env p ?proto")
        case (Inl err)
        with Cons.prems Some False show ?thesis
          by (intro step [of "[EvDial p ?proto, EvLogFailedConnect ?proto (addr h) err]"])
            (simp_all add: Let_def emit_emit)
      next
        case (Inr c0)
        let ?c = "set_UDPSize env state c0"
        show ?thesis
        proof (cases "conn_WriteMsg env ?c (Req state)")
          case (Some err)
          with Cons.prems \<open>deref s p = Some h\<close> False Inr show ?thesis
            by (intro step [of "[EvDial p ?proto, EvSetWriteDeadline ?c,
                  EvConnWriteMsg ?c (Req state), EvLogFailedWrite ?proto (addr h) err,
                  EvConnClose ?c]"])
              (simp_all add: Let_def emit_emit)
        next
          case None
          show ?thesis
          proof (cases "conn_ReadMsg env ?c")
            case (Inl err)
            with Cons.prems \<open>deref s p = Some h\<close> False \<open>proxy_Dial env p ?proto = Inr c0\<close> None
            show ?thesis
              by (intro step [of "[EvDial p ?proto, EvSetWriteDeadline ?c,
                    EvConnWriteMsg ?c (Req state), EvSetReadDeadline ?c, EvConnReadMsg ?c,
                    EvLogFailedRead ?proto (addr h) err, EvConnClose ?c]"])
                (simp_all add: Let_def emit_emit)
          next
            case (Inr ret)
            with Cons.prems \<open>deref s p = Some h\<close> False \<open>proxy_Dial env p ?proto = Inr c0\<close> None
            have "s' = emit [EvDial p ?proto, EvSetWriteDeadline ?c,
                    EvConnWriteMsg ?c (Req state), EvSetReadDeadline ?c, EvConnReadMsg ?c,
                    EvClientWriteMsg (W state) ret, EvYield p ?c, EvRequestCount (addr h),
                    EvRcodeCount (rcode_label env ret) (addr h),
                    EvRequestDuration (addr h)] s"
              by (simp add: Let_def emit_emit)
            then show ?thesis
              by (intro exI [of _ "[EvDial p ?proto, EvSetWriteDeadline ?c,
                    EvConnWriteMsg ?c (Req state), EvSetReadDeadline ?c, EvConnReadMsg ?c,
                    EvClientWriteMsg (W state) ret, EvYield p ?c, EvRequestCount (addr h),
                    EvRcodeCount (rcode_label env ret) (addr h),
                    EvRequestDuration (addr h)]"])
                (simp add: trace_emit None Inr)
          qed
        qed
      qed
    qed
  qed
qed

lemma connect_heap: "heap (snd (connect env state force metric p h s)) = heap s"
  by (simp add: connect_def Let_def heap_emit split: sum.splits option.splits)

lemma Forward_loop_heap:
  "Forward_loop env f state ps s = Inr (res, s') \<Longrightarrow> heap s' = heap s"
proof (induction ps arbitrary: s)
  case Nil
  then show ?case by simp
next
  case (Cons p ps)
  show ?case
  proof (cases "deref s p")
    case None
    with Cons.prems show ?thesis by simp
  next
    case (Some h)
    obtain out s1 where c: "connect env state (forceTCP f) True p h s = (out, s1)"
      by (cases "connect env state (forceTCP f) True p h s")
    then have s1: "heap s1 = heap s"
      using connect_heap [of env state "forceTCP f" True p h s] by simp
    show ?thesis
    proof (cases "Down h (maxfails f)")
      case True
      with Cons.prems Some show ?thesis by (auto dest: Cons.IH)
    next
      case False
      show ?thesis
      proof (cases out)
        case (Inl err)
        with Cons.prems Some False c have
          "Forward_loop env f state ps (emit [EvLogForwardFailed (addr h) err] s1) = Inr (res, s')"
          by simp
        from Cons.IH [OF this] s1 show ?thesis by (simp add: heap_emit)
      next
        case (Inr ret)
        with Cons.prems Some False c s1 show ?thesis by auto
      qed
    qed
  qed
qed

subsection \<open>The example configuration, evaluated\<close>

lemma example_match_www:
  "match example_env (example_forward ps) \<lparr>W = 9, Req = example_query ''www.org.''\<rparr>"
  by (simp add: match_def isAllowedDomain_def example_env_def example_forward_def
        example_query_def)

lemma example_deref:
  "deref (emit evs example_world) 11 = Some (example_host ''10.0.0.1:53'' 0)"
  "deref (emit evs example_world) 12 = Some (example_host ''10.0.0.2:53'' 0)"
  "deref (emit evs example_world) 13 = Some (example_host ''10.0.0.3:53'' 0)"
  "deref (emit evs example_world) 14 = Some (example_host ''10.0.0.4:53'' 0)"
  "deref (emit evs example_world) 15 = Some (example_host ''10.0.0.5:53'' 3)"
  "deref example_world 11 = Some (example_host ''10.0.0.1:53'' 0)"
  "deref example_world 12 = Some (example_host ''10.0.0.2:53'' 0)"
  "deref example_world 13 = Some (example_host ''10.0.0.3:53'' 0)"
  "deref example_world 14 = Some (example_host ''10.0.0.4:53'' 0)"
  "deref example_world 15 = Some (example_host ''10.0.0.5:53'' 3)"
  by (simp_all add: deref_def emit_def example_world_def example_heap_def)

lemma example_addr: "addr (example_host a n) = a"
  by (simp add: example_host_def)

lemma example_down:
  "Down (example_host a 0) (maxfails (example_forward ps)) = False"
  "Down (example_host a 3) (maxfails (example_forward ps)) = True"
  by (simp_all add: Down_def down_def example_host_def example_forward_def)

lemma example_proto:
  "choose_proto example_env (example_forward ps) state (example_host a n) = ''udp''"
  by (simp add: choose_proto_def example_env_def example_forward_def example_host_def)

lemma example_size:
  "set_UDPSize example_env \<lparr>W = 9, Req = example_query name\<rparr> \<lparr>conn_id = p, conn_UDPSize = 0\<rparr>
   = \<lparr>conn_id = p, conn_UDPSize = 4096\<rparr>"
  by (simp add: set_UDPSize_def example_env_def example_query_def)

lemma example_list:
  "list example_env (example_forward [11, 12, 13, 15]) = Inr [15, 13, 12, 11]"
  "list example_env (example_forward [11, 12, 13]) = Inr [13, 12, 11]"
  "list example_env (example_forward [14, 11]) = Inr [11, 14]"
  "list example_env (example_forward [15]) = Inr [15]"
  by (simp_all add: list_def example_env_def example_forward_def)

lemma example_dial:
  "proxy_Dial example_env 11 proto = Inl (OtherError ''connection refused'')"
  "proxy_Dial example_env 12 proto = Inr \<lparr>conn_id = 12, conn_UDPSize = 0\<rparr>"
  "proxy_Dial example_env 13 proto = Inr \<lparr>conn_id = 13, conn_UDPSize = 0\<rparr>"
  "proxy_Dial example_env 14 proto = Inr \<lparr>conn_id = 14, conn_UDPSize = 0\<rparr>"
  by (simp_all add: example_env_def)

lemma example_write:
  "conn_WriteMsg example_env \<lparr>conn_id = 12, conn_UDPSize = n\<rparr> m = Some (OtherError ''broken pipe'')"
  "conn_WriteMsg example_env \<lparr>conn_id = 13, conn_UDPSize = n\<rparr> m = None"
  "conn_WriteMsg example_env \<lparr>conn_id = 14, conn_UDPSize = n\<rparr> m = None"
  by (simp_all add: example_env_def)

lemma example_read:
  "conn_ReadMsg example_env \<lparr>conn_id = 13, conn_UDPSize = n\<rparr> = Inl (OtherError ''i/o timeout'')"
  "conn_ReadMsg example_env \<lparr>conn_id = 14, conn_UDPSize = n\<rparr> = Inr example_reply"
  by (simp_all add: example_env_def)

lemma example_rcode_label: "rcode_label example_env example_reply = ''SERVFAIL''"
  by (simp add: rcode_label_def example_env_def example_reply_def RcodeServerFailure_def)

lemma example_connect_refused:
  "connect example_env st (forceTCP (example_forward ps)) True 11 (example_host a n) s
   = (Inl (OtherError ''connection refused''), emit [EvDial 11 ''udp''] s)"
  by (simp add: connect_def example_env_def example_forward_def example_host_def Let_def)

lemma example_connect_answered:
  assumes "Edns0 (Req st) = Some \<lparr>UDPSize = 4096, Do = d\<rparr>"
  shows "connect example_env st (forceTCP (example_forward ps)) True 14 (example_host a n) s
   = (Inr example_reply,
      emit [EvDial 14 ''udp'', EvSetWriteDeadline \<lparr>conn_id = 14, conn_UDPSize = 4096\<rparr>,
            EvConnWriteMsg \<lparr>conn_id = 14, conn_UDPSize = 4096\<rparr> (Req st),
            EvSetReadDeadline \<lparr>conn_id = 14, conn_UDPSize = 4096\<rparr>,
            EvConnReadMsg \<lparr>conn_id = 14, conn_UDPSize = 4096\<rparr>,
            EvYield 14 \<lparr>conn_id = 14, conn_UDPSize = 4096\<rparr>,
            EvRequestCount a, EvRcodeCount ''SERVFAIL'' a, EvRequestDuration a] s)"
proof -
  have size: "set_UDPSize example_env st \<lparr>conn_id = 14, conn_UDPSize = 0\<rparr>
              = \<lparr>conn_id = 14, conn_UDPSize = 4096\<rparr>"
    using assms by (simp add: set_UDPSize_def example_env_def)
  have proto: "req_Proto example_env st = ''udp''"
    by (simp add: example_env_def)
  show ?thesis
    by (simp add: connect_def proto size example_dial example_write example_read
          example_rcode_label example_addr example_forward_def example_host_def
          Let_def emit_emit)
qed

lemma example_Forward_run:
  assumes "Edns0 (Req st) = Some \<lparr>UDPSize = 4096, Do = d\<rparr>"
  shows "\<exists>s'. Forward example_env (example_forward [14, 11]) st example_world
             = Inr ((Some example_reply, None), s')
           \<and> EvLogForwardFailed ''10.0.0.1:53'' (OtherError ''connection refused'')
               \<in> set (trace s')"
  by (simp add: Forward_def example_list example_deref example_down deref_emit
        example_connect_refused example_connect_answered [OF assms] example_addr
        emit_emit trace_emit)

lemma example_ServeDNS_run:
  "\<exists>s'. ServeDNS example_env (example_forward [14, 11]) 9 (example_query ''www.org.'')
           example_world = Inr ((0, None), s')
        \<and> EvLogFailedConnect ''udp'' ''10.0.0.1:53'' (OtherError ''connection refused'')
            \<in> set (trace s')"
  by (simp add: ServeDNS_def example_match_www example_list example_deref example_down
        example_proto example_dial example_size example_write example_read example_addr
        deref_emit Let_def emit_emit trace_emit)

lemma example_trials:
  "trial_skipped_or_failed example_env (example_forward ps)
     \<lparr>W = 9, Req = example_query ''www.org.''\<rparr> example_world 15"
  "trial_skipped_or_failed example_env (example_forward ps)
     \<lparr>W = 9, Req = example_query ''www.org.''\<rparr> example_world 13"
  "trial_skipped_or_failed example_env (example_forward ps)
     \<lparr>W = 9, Req = example_query ''www.org.''\<rparr> example_world 12"
  "trial_skipped_or_failed example_env (example_forward ps)
     \<lparr>W = 9, Req = example_query ''www.org.''\<rparr> example_world 11"
  by (simp_all add: trial_skipped_or_failed_def example_deref example_down example_proto
        example_dial example_size example_write example_read)

section \<open>Properties of the health check\<close>

text \<open>
  C4. \<^verbatim>\<open>down\<close> (the spec's IsDown) is false when \<open>maxfails\<close> is 0, whatever the
  counter; otherwise it is true exactly when the counter is strictly above \<open>maxfails\<close>
  as unsigned numbers, so that a counter equal to \<open>maxfails\<close> is up.
\<close>

theorem down_spec:
  "down h 0 = False
   \<and> (mf \<noteq> 0 \<longrightarrow> down h mf = (unat mf < unat (fails h)))
   \<and> (fails h = mf \<longrightarrow> down h mf = False)"
  by (simp add: down_def word_less_nat_alt)

theorem down_spec_witness:
  "(2::u32) \<noteq> 0
   \<and> down (example_host ''10.0.0.5:53'' 3) 2 = True
   \<and> fails (example_host ''10.0.0.5:53'' 2) = 2
   \<and> down (example_host ''10.0.0.5:53'' 2) 2 = False
   \<and> down (example_host ''10.0.0.5:53'' 3) 0 = False"
  using down_spec [of "example_host ''10.0.0.5:53'' 3" 2]
    down_spec [of "example_host ''10.0.0.5:53'' 2" 2]
  by (simp add: example_host_def)

text \<open>
  C5. A probe that runs (no other probe is in flight) and whose exchange returns no error,
  or the truncation error, leaves the failure counter at 0 whatever it was, and adds
  nothing to the trace but the exchange itself: no log line and no failure count. With any
  other error the counter is incremented (as a 32-bit unsigned number), and the failure is
  logged and counted in the health-failure metric of this upstream.
\<close>

theorem Check_probe_outcomes:
  assumes "\<not> checking h"
  shows "(client_Exchange env (hcping env) (addr h) = None
            \<or> client_Exchange env (hcping env) (addr h) = Some ErrTruncated
          \<longrightarrow> Check env h tr = (h\<lparr>fails := 0\<rparr>, tr @ [EvExchange (hcping env) (addr h)]))
       \<and> (\<forall>err. client_Exchange env (hcping env) (addr h) = Some err \<and> err \<noteq> ErrTruncated
          \<longrightarrow> Check env h tr =
                (h\<lparr>fails := fails h + 1\<rparr>,
                 tr @ [EvExchange (hcping env) (addr h),
                       EvLogHealthcheckFailed (addr h) err,
                       EvHealthcheckFailureCount (addr h)]))"
  using assms
  by (auto simp add: Check_def Check_enter_def Check_probe_def Check_exit_def send_def Let_def)

theorem Check_probe_outcomes_witness:
  "\<not> checking (example_host ''10.0.0.1:53'' 4)
   \<and> fails (fst (Check example_env (example_host ''10.0.0.1:53'' 4) [])) = 5
   \<and> snd (Check example_env (example_host ''10.0.0.1:53'' 4) []) =
       [EvExchange (hcping example_env) ''10.0.0.1:53'',
        EvLogHealthcheckFailed ''10.0.0.1:53'' (OtherError ''i/o timeout''),
        EvHealthcheckFailureCount ''10.0.0.1:53'']
   \<and> Check example_env (example_host ''10.0.0.2:53'' 4) [] =
       (example_host ''10.0.0.2:53'' 0, [EvExchange (hcping example_env) ''10.0.0.2:53''])
   \<and> Check example_env (example_host ''10.0.0.3:53'' 4) [] =
       (example_host ''10.0.0.3:53'' 0, [EvExchange (hcping example_env) ''10.0.0.3:53''])"
  using Check_probe_outcomes [of "example_host ''10.0.0.1:53'' 4" example_env "[]"]
    Check_probe_outcomes [of "example_host ''10.0.0.2:53'' 4" example_env "[]"]
    Check_probe_outcomes [of "example_host ''10.0.0.3:53'' 4" example_env "[]"]
  by (simp add: example_host_def example_env_def)

text \<open>
  C6. When the probe-in-flight flag is set, \<^verbatim>\<open>Check\<close> returns the host and the trace as
  they were: no exchange, no change of the counter or of anything else. Otherwise it sets
  the flag, the probe runs with the flag set, and the flag is cleared when \<^verbatim>\<open>Check\<close>
  returns, whatever the outcome of the probe.
\<close>

theorem Check_debounce:
  "(checking h \<longrightarrow> Check env h tr = (h, tr))
   \<and> (\<not> checking h \<longrightarrow>
        Check_enter h = Some (h\<lparr>checking := True\<rparr>)
        \<and> checking (h\<lparr>checking := True\<rparr>)
        \<and> checking (fst (Check_probe env (h\<lparr>checking := True\<rparr>) tr))
        \<and> Check env h tr =
            (Check_exit (fst (Check_probe env (h\<lparr>checking := True\<rparr>) tr)),
             snd (Check_probe env (h\<lparr>checking := True\<rparr>) tr))
        \<and> \<not> checking (fst (Check env h tr)))"
  by (auto simp add: Check_def Check_enter_def Check_exit_def Check_probe_checking
        split: prod.splits)

theorem Check_debounce_witness:
  "checking ((example_host ''10.0.0.1:53'' 4)\<lparr>checking := True\<rparr>)
   \<and> Check example_env ((example_host ''10.0.0.1:53'' 4)\<lparr>checking := True\<rparr>) [] =
       ((example_host ''10.0.0.1:53'' 4)\<lparr>checking := True\<rparr>, [])
   \<and> \<not> checking (example_host ''10.0.0.1:53'' 4)
   \<and> Check_enter (example_host ''10.0.0.1:53'' 4) =
       Some ((example_host ''10.0.0.1:53'' 4)\<lparr>checking := True\<rparr>)
   \<and> \<not> checking (fst (Check example_env (example_host ''10.0.0.1:53'' 4) []))
   \<and> \<not> checking (fst (Check example_env (example_host ''10.0.0.2:53'' 4) []))"
  using Check_debounce [of "(example_host ''10.0.0.1:53'' 4)\<lparr>checking := True\<rparr>" example_env "[]"]
    Check_debounce [of "example_host ''10.0.0.1:53'' 4" example_env "[]"]
    Check_debounce [of "example_host ''10.0.0.2:53'' 4" example_env "[]"]
  by (simp add: example_host_def Check_exit_def)

section \<open>Properties of the orchestrator\<close>

text \<open>
  C2. Whenever \<^verbatim>\<open>rand.Perm(n)\<close> is a permutation of \<open>0, \<dots>, n - 1\<close>, \<^verbatim>\<open>list\<close> returns,
  without panic, a permutation of the configured proxies: the same length and every proxy
  as often as it is configured, so exactly once when the configured proxies are distinct.
  This holds for every number of proxies. The order is computed from the configured
  proxies and the random draws of the call alone: \<^verbatim>\<open>list\<close> reads no other field and
  writes none.
\<close>

theorem list_permutation:
  assumes "mset (rand_Perm env (length (proxies f))) = mset [0..<length (proxies f)]"
  shows "\<exists>qs. list env f = Inr qs
             \<and> mset qs = mset (proxies f)
             \<and> length qs = length (proxies f)
             \<and> (distinct (proxies f) \<longrightarrow> distinct qs \<and> set qs = set (proxies f))
             \<and> (\<forall>f'. proxies f' = proxies f \<longrightarrow> list env f' = list env f)"
proof -
  from list_mset [OF assms] obtain qs where
    qs: "list env f = Inr qs" and m: "mset qs = mset (proxies f)"
    by blast
  have "length qs = length (proxies f)"
    using m by (rule mset_eq_length)
  moreover have "distinct (proxies f) \<longrightarrow> distinct qs \<and> set qs = set (proxies f)"
    using m by (metis mset_eq_imp_distinct_iff mset_eq_setD)
  moreover have "\<forall>f'. proxies f' = proxies f \<longrightarrow> list env f' = list env f"
    by (simp add: list_def)
  ultimately show ?thesis using qs m by blast
qed

theorem list_permutation_witness:
  "mset (rand_Perm example_env (length (proxies (example_forward [11, 12, 13]))))
     = mset [0..<length (proxies (example_forward [11, 12, 13]))]
   \<and> list example_env (example_forward [11, 12, 13]) = Inr [13, 12, 11]
   \<and> (\<exists>qs. list example_env (example_forward [11, 12, 13]) = Inr qs
            \<and> mset qs = mset [11, 12, 13] \<and> distinct qs)"
proof -
  have h: "mset (rand_Perm example_env (length (proxies (example_forward [11, 12, 13]))))
             = mset [0..<length (proxies (example_forward [11, 12, 13]))]"
    by (simp add: example_env_def example_forward_def upt_rec)
  have d: "distinct (proxies (example_forward [11, 12, 13]))"
    "proxies (example_forward [11, 12, 13]) = [11, 12, 13]"
    by (simp_all add: example_forward_def)
  show ?thesis
    using h d list_permutation [OF h] by (auto simp add: example_list)
qed

text \<open>
  C3. \<^verbatim>\<open>match\<close> holds exactly when the query name matches the origin zone and either
  equals the zone or matches no ignored name; a name equal to the zone is always allowed by
  \<^verbatim>\<open>isAllowedDomain\<close>. \<^verbatim>\<open>ServeDNS\<close> goes to the trial loop exactly when \<^verbatim>\<open>match\<close>
  holds; when it does not hold, the result of \<^verbatim>\<open>ServeDNS\<close> is the result of the
  configured next handler on the same writer, message and state.
\<close>

theorem match_spec:
  "match env f state =
     (Matches env (from f) (req_Name env state)
      \<and> (req_Name env state = from f
         \<or> (\<forall>ignore \<in> set (ignored f). \<not> Matches env ignore (req_Name env state))))
   \<and> isAllowedDomain env f (from f)
   \<and> (\<not> match env f \<lparr>W = w, Req = r\<rparr> \<and> Next f = Some nxt
        \<longrightarrow> ServeDNS env f w r s = nxt w r s)
   \<and> (match env f \<lparr>W = w, Req = r\<rparr>
        \<longrightarrow> ServeDNS env f w r s =
            (case list env f of
               Inl p \<Rightarrow> Inl p
             | Inr ps \<Rightarrow> ServeDNS_loop env f \<lparr>W = w, Req = r\<rparr> ps s))"
  by (auto simp add: match_def isAllowedDomain_def isAllowedDomain_loop_iff ServeDNS_def
        NextOrFailure_def)

theorem match_spec_witness:
  "\<not> match example_env (example_forward [15]) \<lparr>W = 9, Req = example_query ''b.a.org.''\<rparr>
   \<and> Matches example_env ''org.'' ''b.a.org.''
   \<and> Matches example_env ''a.org.'' ''b.a.org.''
   \<and> Next (example_forward [15]) = Some example_next
   \<and> ServeDNS example_env (example_forward [15]) 9 (example_query ''b.a.org.'') example_world
       = example_next 9 (example_query ''b.a.org.'') example_world
   \<and> \<not> match example_env (example_forward [15]) \<lparr>W = 9, Req = example_query ''com.''\<rparr>
   \<and> match example_env ((example_forward [15])\<lparr>ignored := [''org.'']\<rparr>)
       \<lparr>W = 9, Req = example_query ''org.''\<rparr>
   \<and> match example_env (example_forward [15]) \<lparr>W = 9, Req = example_query ''www.org.''\<rparr>
   \<and> ServeDNS example_env (example_forward [15]) 9 (example_query ''www.org.'') example_world
       = ServeDNS_loop example_env (example_forward [15])
           \<lparr>W = 9, Req = example_query ''www.org.''\<rparr> [15] example_world"
  using match_spec [of example_env "example_forward [15]"
        "\<lparr>W = 9, Req = example_query ''b.a.org.''\<rparr>" 9 "example_query ''b.a.org.''"
        example_next example_world]
    match_spec [of example_env "example_forward [15]"
        "\<lparr>W = 9, Req = example_query ''com.''\<rparr>" 9 "example_query ''com.''"
        example_next example_world]
    match_spec [of example_env "(example_forward [15])\<lparr>ignored := [''org.'']\<rparr>"
        "\<lparr>W = 9, Req = example_query ''org.''\<rparr>" 9 "example_query ''org.''"
        example_next example_world]
    match_spec [of example_env "example_forward [15]"
        "\<lparr>W = 9, Req = example_query ''www.org.''\<rparr>" 9 "example_query ''www.org.''"
        example_next example_world]
  by (simp add: example_list) (simp add: example_env_def example_forward_def example_query_def)

text \<open>
  C1 (as amended). For a request that matches the zone, when every trial of the order that
  \<^verbatim>\<open>list\<close> returned is skipped or fails, \<^verbatim>\<open>ServeDNS\<close> returns the server-failure
  response code together with the error \<^verbatim>\<open>errNoHealthy\<close> to its caller, and it has
  written no message to the client: the messages written to clients are those written
  before the call.
\<close>

theorem ServeDNS_exhausted:
  assumes "match env f \<lparr>W = w, Req = r\<rparr>"
    and "list env f = Inr ps"
    and "\<forall>p \<in> set ps. trial_skipped_or_failed env f \<lparr>W = w, Req = r\<rparr> s p"
  shows "\<exists>s'. ServeDNS env f w r s = Inr ((RcodeServerFailure, Some errNoHealthy), s')
             \<and> client_writes (trace s') = client_writes (trace s)"
  using assms ServeDNS_loop_exhausted [OF assms(3)]
  by (simp add: ServeDNS_def)

theorem ServeDNS_exhausted_witness:
  "match example_env (example_forward [11, 12, 13, 15]) \<lparr>W = 9, Req = example_query ''www.org.''\<rparr>
   \<and> list example_env (example_forward [11, 12, 13, 15]) = Inr [15, 13, 12, 11]
   \<and> trial_skipped_or_failed example_env (example_forward [11, 12, 13, 15])
        \<lparr>W = 9, Req = example_query ''www.org.''\<rparr> example_world 15
   \<and> trial_skipped_or_failed example_env (example_forward [11, 12, 13, 15])
        \<lparr>W = 9, Req = example_query ''www.org.''\<rparr> example_world 13
   \<and> trial_skipped_or_failed example_env (example_forward [11, 12, 13, 15])
        \<lparr>W = 9, Req = example_query ''www.org.''\<rparr> example_world 12
   \<and> trial_skipped_or_failed example_env (example_forward [11, 12, 13, 15])
        \<lparr>W = 9, Req = example_query ''www.org.''\<rparr> example_world 11
   \<and> (\<exists>s'. ServeDNS example_env (example_forward [11, 12, 13, 15]) 9
              (example_query ''www.org.'') example_world
            = Inr ((RcodeServerFailure, Some errNoHealthy), s')
           \<and> client_writes (trace s') = [])"
  using ServeDNS_exhausted [of example_env "example_forward [11, 12, 13, 15]" 9
      "example_query ''www.org.''" "[15, 13, 12, 11]" example_world]
  by (simp add: example_match_www example_list example_trials)
    (simp add: example_world_def)

text \<open>
  The claim as stated fails: with the one configured upstream down, the request matches,
  the only trial is skipped, \<^verbatim>\<open>ServeDNS\<close> returns the server-failure code and
  \<^verbatim>\<open>errNoHealthy\<close>, and no message has been written to the client.
\<close>

theorem ServeDNS_exhausted_counterexample:
  "match example_env (example_forward [15]) \<lparr>W = 9, Req = example_query ''www.org.''\<rparr>
   \<and> list example_env (example_forward [15]) = Inr [15]
   \<and> trial_skipped_or_failed example_env (example_forward [15])
        \<lparr>W = 9, Req = example_query ''www.org.''\<rparr> example_world 15
   \<and> ServeDNS example_env (example_forward [15]) 9 (example_query ''www.org.'') example_world
       = Inr ((RcodeServerFailure, Some errNoHealthy), example_world)
   \<and> client_writes (trace example_world) = []"
  by (simp add: example_match_www example_list example_trials ServeDNS_def
        example_deref example_down)
    (simp add: example_world_def)

text \<open>
  C7. In a trial of an upstream that is up and whose dial succeeded, when the write fails,
  or the write succeeds and the read fails, the loop does exactly this and goes on with the
  rest of the order: it logs the error and closes the connection. The connection is not
  yielded to the pool, nothing is written to the client and the error is not returned.
  Over a whole run of the loop, an upstream is dialled at most as often as it occurs in the
  order, and every connection yielded to the pool is one on which the write and the read
  succeeded.
\<close>

theorem ServeDNS_loop_io_failure:
  assumes "deref s proxy = Some h"
    and "\<not> Down h (maxfails f)"
    and "proto = choose_proto env f state h"
    and "proxy_Dial env proxy proto = Inr c0"
    and "c = set_UDPSize env state c0"
  shows "(conn_WriteMsg env c (Req state) = Some err \<longrightarrow>
            ServeDNS_loop env f state (proxy # rest) s =
            ServeDNS_loop env f state rest
              (emit [EvDial proxy proto, EvSetWriteDeadline c, EvConnWriteMsg c (Req state),
                     EvLogFailedWrite proto (addr h) err, EvConnClose c] s))
       \<and> (conn_WriteMsg env c (Req state) = None \<and> conn_ReadMsg env c = Inl err \<longrightarrow>
            ServeDNS_loop env f state (proxy # rest) s =
            ServeDNS_loop env f state rest
              (emit [EvDial proxy proto, EvSetWriteDeadline c, EvConnWriteMsg c (Req state),
                     EvSetReadDeadline c, EvConnReadMsg c,
                     EvLogFailedRead proto (addr h) err, EvConnClose c] s))
       \<and> (ServeDNS_loop env f state ps ini = Inr (res, fin) \<longrightarrow>
            (\<exists>evs. trace fin = trace ini @ evs
                 \<and> (\<forall>q. count_list (dialled evs) q \<le> count_list ps q)
                 \<and> (\<forall>c' \<in> set (yielded evs).
                       conn_WriteMsg env c' (Req state) = None
                       \<and> \<not> isl (conn_ReadMsg env c'))))"
proof -
  have "ServeDNS_loop env f state ps ini = Inr (res, fin) \<longrightarrow>
            (\<exists>evs. trace fin = trace ini @ evs
                 \<and> (\<forall>q. count_list (dialled evs) q \<le> count_list ps q)
                 \<and> (\<forall>c' \<in> set (yielded evs).
                       conn_WriteMsg env c' (Req state) = None
                       \<and> \<not> isl (conn_ReadMsg env c')))"
    using ServeDNS_loop_trace [of env f state ps ini res fin] by blast
  then show ?thesis
    using assms by (simp add: Let_def emit_emit)
qed

theorem ServeDNS_loop_io_failure_witness:
  "deref example_world 12 = Some (example_host ''10.0.0.2:53'' 0)
   \<and> \<not> Down (example_host ''10.0.0.2:53'' 0) (maxfails (example_forward [12, 14]))
   \<and> proxy_Dial example_env 12 ''udp'' = Inr \<lparr>conn_id = 12, conn_UDPSize = 0\<rparr>
   \<and> conn_WriteMsg example_env \<lparr>conn_id = 12, conn_UDPSize = 4096\<rparr> (example_query ''www.org.'')
       = Some (OtherError ''broken pipe'')
   \<and> ServeDNS_loop example_env (example_forward [12, 14])
        \<lparr>W = 9, Req = example_query ''www.org.''\<rparr> [12, 14] example_world
      = ServeDNS_loop example_env (example_forward [12, 14])
          \<lparr>W = 9, Req = example_query ''www.org.''\<rparr> [14]
          (emit [EvDial 12 ''udp'', EvSetWriteDeadline \<lparr>conn_id = 12, conn_UDPSize = 4096\<rparr>,
                 EvConnWriteMsg \<lparr>conn_id = 12, conn_UDPSize = 4096\<rparr> (example_query ''www.org.''),
                 EvLogFailedWrite ''udp'' ''10.0.0.2:53'' (OtherError ''broken pipe''),
                 EvConnClose \<lparr>conn_id = 12, conn_UDPSize = 4096\<rparr>] example_world)
   \<and> conn_WriteMsg example_env \<lparr>conn_id = 13, conn_UDPSize = 4096\<rparr> (example_query ''www.org.'')
       = None
   \<and> conn_ReadMsg example_env \<lparr>conn_id = 13, conn_UDPSize = 4096\<rparr>
       = Inl (OtherError ''i/o timeout'')
   \<and> ServeDNS_loop example_env (example_forward [13, 14])
        \<lparr>W = 9, Req = example_query ''www.org.''\<rparr> [13, 14] example_world
      = ServeDNS_loop example_env (example_forward [13, 14])
          \<lparr>W = 9, Req = example_query ''www.org.''\<rparr> [14]
          (emit [EvDial 13 ''udp'', EvSetWriteDeadline \<lparr>conn_id = 13, conn_UDPSize = 4096\<rparr>,
                 EvConnWriteMsg \<lparr>conn_id = 13, conn_UDPSize = 4096\<rparr> (example_query ''www.org.''),
                 EvSetReadDeadline \<lparr>conn_id = 13, conn_UDPSize = 4096\<rparr>,
                 EvConnReadMsg \<lparr>conn_id = 13, conn_UDPSize = 4096\<rparr>,
                 EvLogFailedRead ''udp'' ''10.0.0.3:53'' (OtherError ''i/o timeout''),
                 EvConnClose \<lparr>conn_id = 13, conn_UDPSize = 4096\<rparr>] example_world)
   \<and> (\<exists>fin. ServeDNS_loop example_env (example_forward [12, 14])
                \<lparr>W = 9, Req = example_query ''www.org.''\<rparr> [12, 14] example_world
              = Inr ((0, None), fin)
            \<and> count_list (dialled (trace fin)) 12 \<le> 1
            \<and> \<lparr>conn_id = 12, conn_UDPSize = 4096\<rparr> \<notin> set (yielded (trace fin)))"
proof -
  let ?st = "\<lparr>W = 9, Req = example_query ''www.org.''\<rparr>"
  obtain fin where run: "ServeDNS_loop example_env (example_forward [12, 14]) ?st [12, 14]
                           example_world = Inr ((0, None), fin)"
    by (simp add: deref_emit example_deref example_down example_proto example_dial
          example_size example_write example_read Let_def)
  note io12 = ServeDNS_loop_io_failure [of example_world 12 "example_host ''10.0.0.2:53'' 0"
      "example_forward [12, 14]" "''udp''" example_env ?st "\<lparr>conn_id = 12, conn_UDPSize = 0\<rparr>"
      "\<lparr>conn_id = 12, conn_UDPSize = 4096\<rparr>" "OtherError ''broken pipe''" "[14]"
      "[12, 14]" example_world "(0, None)" fin]
  note io13 = ServeDNS_loop_io_failure [of example_world 13 "example_host ''10.0.0.3:53'' 0"
      "example_forward [13, 14]" "''udp''" example_env ?st "\<lparr>conn_id = 13, conn_UDPSize = 0\<rparr>"
      "\<lparr>conn_id = 13, conn_UDPSize = 4096\<rparr>" "OtherError ''i/o timeout''" "[14]"
      "[]" example_world "(RcodeServerFailure, Some errNoHealthy)" example_world]
  have first: "deref example_world 12 = Some (example_host ''10.0.0.2:53'' 0)
     \<and> \<not> Down (example_host ''10.0.0.2:53'' 0) (maxfails (example_forward [12, 14]))
     \<and> proxy_Dial example_env 12 ''udp'' = Inr \<lparr>conn_id = 12, conn_UDPSize = 0\<rparr>
     \<and> conn_WriteMsg example_env \<lparr>conn_id = 12, conn_UDPSize = 4096\<rparr> (example_query ''www.org.'')
         = Some (OtherError ''broken pipe'')
     \<and> conn_WriteMsg example_env \<lparr>conn_id = 13, conn_UDPSize = 4096\<rparr> (example_query ''www.org.'')
         = None
     \<and> conn_ReadMsg example_env \<lparr>conn_id = 13, conn_UDPSize = 4096\<rparr>
         = Inl (OtherError ''i/o timeout'')"
    by (simp add: example_deref example_down example_dial example_write example_read)
  have hyps12: "deref example_world 12 = Some (example_host ''10.0.0.2:53'' 0)"
    "\<not> Down (example_host ''10.0.0.2:53'' 0) (maxfails (example_forward [12, 14]))"
    "''udp'' = choose_proto example_env (example_forward [12, 14]) ?st
                 (example_host ''10.0.0.2:53'' 0)"
    "proxy_Dial example_env 12 ''udp'' = Inr \<lparr>conn_id = 12, conn_UDPSize = 0\<rparr>"
    "\<lparr>conn_id = 12, conn_UDPSize = 4096\<rparr>
       = set_UDPSize example_env ?st \<lparr>conn_id = 12, conn_UDPSize = 0\<rparr>"
    by (simp_all add: example_deref example_down example_proto example_dial example_size)
  have hyps13: "deref example_world 13 = Some (example_host ''10.0.0.3:53'' 0)"
    "\<not> Down (example_host ''10.0.0.3:53'' 0) (maxfails (example_forward [13, 14]))"
    "''udp'' = choose_proto example_env (example_forward [13, 14]) ?st
                 (example_host ''10.0.0.3:53'' 0)"
    "proxy_Dial example_env 13 ''udp'' = Inr \<lparr>conn_id = 13, conn_UDPSize = 0\<rparr>"
    "\<lparr>conn_id = 13, conn_UDPSize = 4096\<rparr>
       = set_UDPSize example_env ?st \<lparr>conn_id = 13, conn_UDPSize = 0\<rparr>"
    by (simp_all add: example_deref example_down example_proto example_dial example_size)
  have w12: "ServeDNS_loop example_env (example_forward [12, 14]) ?st [12, 14] example_world
      = ServeDNS_loop example_env (example_forward [12, 14]) ?st [14]
          (emit [EvDial 12 ''udp'', EvSetWriteDeadline \<lparr>conn_id = 12, conn_UDPSize = 4096\<rparr>,
                 EvConnWriteMsg \<lparr>conn_id = 12, conn_UDPSize = 4096\<rparr> (example_query ''www.org.''),
                 EvLogFailedWrite ''udp'' ''10.0.0.2:53'' (OtherError ''broken pipe''),
                 EvConnClose \<lparr>conn_id = 12, conn_UDPSize = 4096\<rparr>] example_world)"
    using io12 [OF hyps12]
    by (simp del: ServeDNS_loop.simps add: example_write example_addr)
  have r13: "ServeDNS_loop example_env (example_forward [13, 14]) ?st [13, 14] example_world
      = ServeDNS_loop example_env (example_forward [13, 14]) ?st [14]
          (emit [EvDial 13 ''udp'', EvSetWriteDeadline \<lparr>conn_id = 13, conn_UDPSize = 4096\<rparr>,
                 EvConnWriteMsg \<lparr>conn_id = 13, conn_UDPSize = 4096\<rparr> (example_query ''www.org.''),
                 EvSetReadDeadline \<lparr>conn_id = 13, conn_UDPSize = 4096\<rparr>,
                 EvConnReadMsg \<lparr>conn_id = 13, conn_UDPSize = 4096\<rparr>,
                 EvLogFailedRead ''udp'' ''10.0.0.3:53'' (OtherError ''i/o timeout''),
                 EvConnClose \<lparr>conn_id = 13, conn_UDPSize = 4096\<rparr>] example_world)"
    using io13 [OF hyps13]
    by (simp del: ServeDNS_loop.simps add: example_write example_read example_addr)
  from io12 [OF hyps12] run obtain evs where
    t: "trace fin = trace example_world @ evs"
    and d: "\<forall>q. count_list (dialled evs) q \<le> count_list [12, 14] q"
    and y: "\<forall>c' \<in> set (yielded evs).
              conn_WriteMsg example_env c' (Req ?st) = None
              \<and> \<not> isl (conn_ReadMsg example_env c')"
    by blast
  have evs: "trace fin = evs" using t by (simp add: example_world_def)
  have "count_list (dialled (trace fin)) 12 \<le> count_list [12, 14] (12::nat)"
    using d evs by blast
  then have d12: "count_list (dialled (trace fin)) 12 \<le> 1" by simp
  have y12: "\<lparr>conn_id = 12, conn_UDPSize = 4096\<rparr> \<notin> set (yielded (trace fin))"
    using y evs by (auto simp add: example_write)
  show ?thesis
    using first w12 r13 run d12 y12 by blast
qed

text \<open>
  C10. In a trial of an upstream that is up, whose dial and write succeeded and whose read
  returned a reply, whatever the reply's response code: the reply itself is written to the
  client, the connection is yielded to the pool, the request count, the response-code count
  and the duration are recorded for this upstream, and \<^verbatim>\<open>ServeDNS\<close> returns 0 and no
  error. The rest of the order is not tried.
\<close>

theorem ServeDNS_loop_reply_relayed:
  assumes "deref s proxy = Some h"
    and "\<not> Down h (maxfails f)"
    and "proto = choose_proto env f state h"
    and "proxy_Dial env proxy proto = Inr c0"
    and "c = set_UDPSize env state c0"
    and "conn_WriteMsg env c (Req state) = None"
    and "conn_ReadMsg env c = Inr ret"
  shows "ServeDNS_loop env f state (proxy # rest) s =
           Inr ((0, None),
                emit [EvDial proxy proto, EvSetWriteDeadline c, EvConnWriteMsg c (Req state),
                      EvSetReadDeadline c, EvConnReadMsg c,
                      EvClientWriteMsg (W state) ret, EvYield proxy c,
                      EvRequestCount (addr h),
                      EvRcodeCount (rcode_label env ret) (addr h),
                      EvRequestDuration (addr h)] s)"
  using assms by (simp add: Let_def emit_emit)

theorem ServeDNS_loop_reply_relayed_witness:
  "deref example_world 14 = Some (example_host ''10.0.0.4:53'' 0)
   \<and> \<not> Down (example_host ''10.0.0.4:53'' 0) (maxfails (example_forward [14, 12]))
   \<and> proxy_Dial example_env 14 ''udp'' = Inr \<lparr>conn_id = 14, conn_UDPSize = 0\<rparr>
   \<and> conn_WriteMsg example_env \<lparr>conn_id = 14, conn_UDPSize = 4096\<rparr> (example_query ''www.org.'')
       = None
   \<and> conn_ReadMsg example_env \<lparr>conn_id = 14, conn_UDPSize = 4096\<rparr> = Inr example_reply
   \<and> Rcode example_reply = RcodeServerFailure
   \<and> ServeDNS_loop example_env (example_forward [14, 12])
        \<lparr>W = 9, Req = example_query ''www.org.''\<rparr> [14, 12] example_world
      = Inr ((0, None),
             emit [EvDial 14 ''udp'', EvSetWriteDeadline \<lparr>conn_id = 14, conn_UDPSize = 4096\<rparr>,
                   EvConnWriteMsg \<lparr>conn_id = 14, conn_UDPSize = 4096\<rparr> (example_query ''www.org.''),
                   EvSetReadDeadline \<lparr>conn_id = 14, conn_UDPSize = 4096\<rparr>,
                   EvConnReadMsg \<lparr>conn_id = 14, conn_UDPSize = 4096\<rparr>,
                   EvClientWriteMsg 9 example_reply,
                   EvYield 14 \<lparr>conn_id = 14, conn_UDPSize = 4096\<rparr>,
                   EvRequestCount ''10.0.0.4:53'',
                   EvRcodeCount ''SERVFAIL'' ''10.0.0.4:53'',
                   EvRequestDuration ''10.0.0.4:53''] example_world)"
  using ServeDNS_loop_reply_relayed [of example_world 14 "example_host ''10.0.0.4:53'' 0"
      "example_forward [14, 12]" "''udp''" example_env
      "\<lparr>W = 9, Req = example_query ''www.org.''\<rparr>" "\<lparr>conn_id = 14, conn_UDPSize = 0\<rparr>"
      "\<lparr>conn_id = 14, conn_UDPSize = 4096\<rparr>" example_reply "[12]"]
  by (simp del: ServeDNS_loop.simps
        add: example_deref example_down example_proto example_dial example_size
          example_write example_read example_rcode_label example_addr)
    (simp add: example_reply_def)

text \<open>
  C8. A run of \<^verbatim>\<open>ServeDNS\<close> on a request that matches the zone, a run of \<^verbatim>\<open>Forward\<close>
  and a run of \<^verbatim>\<open>Lookup\<close> leave the store of upstreams as it was, whatever the
  dials, writes and reads returned: no failure counter (and no probe flag) is changed on
  the request path.
\<close>

theorem request_path_preserves_counters:
  "(match env f \<lparr>W = w, Req = r\<rparr> \<and> ServeDNS env f w r s = Inr (res, s') \<longrightarrow> heap s' = heap s)
   \<and> (Forward env f state s = Inr (res2, s2) \<longrightarrow> heap s2 = heap s)
   \<and> (Lookup env f state name typ s = Inr (res3, s3) \<longrightarrow> heap s3 = heap s)"
  by (auto simp add: ServeDNS_def Forward_def Lookup_def Let_def split: sum.splits
        dest: ServeDNS_loop_heap Forward_loop_heap)

theorem request_path_preserves_counters_witness:
  "match example_env (example_forward [14, 11]) \<lparr>W = 9, Req = example_query ''www.org.''\<rparr>
   \<and> (\<exists>s'. ServeDNS example_env (example_forward [14, 11]) 9 (example_query ''www.org.'')
              example_world = Inr ((0, None), s')
           \<and> EvLogFailedConnect ''udp'' ''10.0.0.1:53'' (OtherError ''connection refused'')
               \<in> set (trace s')
           \<and> heap s' = example_heap)
   \<and> (\<exists>s'. Forward example_env (example_forward [14, 11])
              \<lparr>W = 9, Req = example_query ''www.org.''\<rparr> example_world
            = Inr ((Some example_reply, None), s')
           \<and> EvLogForwardFailed ''10.0.0.1:53'' (OtherError ''connection refused'')
               \<in> set (trace s')
           \<and> heap s' = example_heap)
   \<and> (\<exists>s'. Lookup example_env (example_forward [14, 11])
              \<lparr>W = 9, Req = example_query ''www.org.''\<rparr> ''aux.org.'' 1 example_world
            = Inr ((Some example_reply, None), s')
           \<and> heap s' = example_heap)"
proof -
  let ?f = "example_forward [14, 11]"
  let ?st = "\<lparr>W = 9, Req = example_query ''www.org.''\<rparr>"
  let ?q = "SizeAndDo ?st (SetQuestion (fresh_id example_env) new_Msg ''aux.org.'' 1)"
  have m: "match example_env ?f ?st"
    by (rule example_match_www)
  obtain s1 where s1: "ServeDNS example_env ?f 9 (example_query ''www.org.'') example_world
                         = Inr ((0, None), s1)"
    and l1: "EvLogFailedConnect ''udp'' ''10.0.0.1:53'' (OtherError ''connection refused'')
               \<in> set (trace s1)"
    using example_ServeDNS_run by blast
  have "Edns0 (Req ?st) = Some \<lparr>UDPSize = 4096, Do = True\<rparr>"
    by (simp add: example_query_def)
  from example_Forward_run [OF this]
  obtain s2 where s2: "Forward example_env ?f ?st example_world
                         = Inr ((Some example_reply, None), s2)"
    and l2: "EvLogForwardFailed ''10.0.0.1:53'' (OtherError ''connection refused'')
               \<in> set (trace s2)"
    by blast
  have "Edns0 (Req \<lparr>W = 9, Req = ?q\<rparr>) = Some \<lparr>UDPSize = 4096, Do = True\<rparr>"
    by (simp add: SizeAndDo_def example_query_def)
  from example_Forward_run [OF this]
  obtain s3 where "Forward example_env ?f \<lparr>W = 9, Req = ?q\<rparr> example_world
                         = Inr ((Some example_reply, None), s3)"
    by blast
  then have s3: "Lookup example_env ?f ?st ''aux.org.'' 1 example_world
                   = Inr ((Some example_reply, None), s3)"
    by (simp add: Lookup_def Let_def)
  have "heap s1 = heap example_world \<and> heap s2 = heap example_world
        \<and> heap s3 = heap example_world"
    using request_path_preserves_counters [of example_env ?f 9 "example_query ''www.org.''"
        example_world "(0, None)" s1 ?st "(Some example_reply, None)" s2 "''aux.org.''" 1
        "(Some example_reply, None)" s3]
      m s1 s2 s3
    by blast
  then show ?thesis
    using m s1 l1 s2 l2 s3 by (simp add: example_world_def)
qed

text \<open>
  C9. \<^verbatim>\<open>Lookup\<close> returns what \<^verbatim>\<open>Forward\<close> returns on a request with the writer of the
  original request and a new query; the question section of the query is exactly the given
  name and type (class IN), and its protocol extension carries the payload size and the
  security flag of the original request (and is absent when the original request has
  none), whatever size would be the default.
\<close>

theorem Lookup_spec:
  "\<exists>q. Lookup env f state name typ s = Forward env f \<lparr>W = W state, Req = q\<rparr> s
       \<and> Question q = [\<lparr>qname = name, qtype = typ, qclass = ClassINET\<rparr>]
       \<and> map_option UDPSize (Edns0 q) = map_option UDPSize (Edns0 (Req state))
       \<and> map_option Do (Edns0 q) = map_option Do (Edns0 (Req state))"
  by (auto simp add: Lookup_def Let_def SizeAndDo_def SetQuestion_def new_Msg_def
        split: option.splits)

theorem Lookup_spec_witness:
  "map_option UDPSize (Edns0 (example_query ''www.org.'')) = Some 4096
   \<and> (\<exists>q. Lookup example_env (example_forward [14, 11])
             \<lparr>W = 9, Req = example_query ''www.org.''\<rparr> ''aux.org.'' 1 example_world
           = Forward example_env (example_forward [14, 11]) \<lparr>W = 9, Req = q\<rparr> example_world
          \<and> Question q = [\<lparr>qname = ''aux.org.'', qtype = 1, qclass = ClassINET\<rparr>]
          \<and> map_option UDPSize (Edns0 q) = Some 4096
          \<and> map_option Do (Edns0 q) = Some True)"
  using Lookup_spec [of example_env "example_forward [14, 11]"
      "\<lparr>W = 9, Req = example_query ''www.org.''\<rparr>" "''aux.org.''" 1 example_world]
  by (simp add: example_query_def)

end
